theory Spec2Isabelle
  imports Main "HOL-Library.Sublist" "HOL-Library.Multiset"
begin

section \<open>The task manager of \<^verbatim>\<open>src/api/app.py\<close>\<close>

text \<open>
  The program is a Flask application over one SQLite table, reached through
  SQLAlchemy. Its five task handlers are embedded as functions of the table
  contents and the request; a handler that writes returns the new contents
  beside its response.

  What the handlers delegate to Flask, SQLAlchemy and SQLite is written out
  from the behaviour those libraries document:
  \<^item> \<^verbatim>\<open>get_or_404\<close> raises werkzeug's \<^verbatim>\<open>NotFound\<close>, a subclass of
    \<^verbatim>\<open>Exception\<close>, when no row has the key;
  \<^item> the table is created with \<^verbatim>\<open>id INTEGER PRIMARY KEY\<close> and without
    \<^verbatim>\<open>AUTOINCREMENT\<close>, so a new row gets the largest key in use plus one,
    and 1 in an empty table;
  \<^item> a flush emits an \<^verbatim>\<open>UPDATE\<close> only for attributes whose value differs
    from the loaded one, and \<^verbatim>\<open>onupdate\<close> fires only with an \<^verbatim>\<open>UPDATE\<close>;
  \<^item> \<^verbatim>\<open>ilike\<close> compiles to \<^verbatim>\<open>lower(col) LIKE lower(pattern)\<close>, where \<^verbatim>\<open>%\<close>
    stands for any run of characters and \<^verbatim>\<open>_\<close> for any one character, no
    escape character is set, and \<^verbatim>\<open>lower\<close> folds the letters A to Z only;
    \<^verbatim>\<open>LIKE\<close> reads pattern and text as C strings, which end at the first
    NUL, and raises on a pattern of more than 50000 bytes;
  \<^item> rows with equal \<^verbatim>\<open>created_at\<close> come out of the \<^verbatim>\<open>ORDER BY\<close> in key
    order.

  Request values are JSON strings or \<^verbatim>\<open>null\<close>, the types the columns hold. A
  \<open>char\<close> is one character of a Python string; the strings covered are those
  over the code points below 256, which UTF-8 encodes in one byte below 128
  and in two bytes from 128 on.
  Every reading of \<^verbatim>\<open>datetime.utcnow\<close> is a parameter of the handler that
  takes it, so nothing is assumed about the clock.
\<close>

subsection \<open>Data\<close>

type_synonym timestamp = nat

text \<open>A row of the table \<^verbatim>\<open>task\<close>; a column with \<^verbatim>\<open>nullable=False\<close> holds a
  string, a nullable one an optional string. Field \<^verbatim>\<open>id\<close> is \<open>task_id\<close> and
  \<^verbatim>\<open>notes\<close> is \<open>task_notes\<close>, the plain names being taken.\<close>

record task =
  task_id :: nat
  date :: string
  entity_name :: string
  task_type :: string
  time :: string
  contact_person :: string
  task_notes :: "string option"
  status :: string
  phone_number :: "string option"
  created_at :: timestamp
  updated_at :: timestamp

text \<open>The table, in key order.\<close>

type_synonym store = "task list"

text \<open>A value of a request body: JSON \<^verbatim>\<open>null\<close> (Python \<^verbatim>\<open>None\<close>) or a string.\<close>

datatype field_value = Null | Str string

type_synonym request_json = "string \<rightharpoonup> field_value"

text \<open>What \<^verbatim>\<open>jsonify\<close> is given. \<open>JIso t\<close> is the string \<^verbatim>\<open>t.isoformat()\<close>.\<close>

datatype json =
    JNull
  | JBool bool
  | JInt nat
  | JStr string
  | JIso timestamp
  | JList "json list"
  | JObj "(string \<times> json) list"

type_synonym response = "json \<times> nat"

datatype exn = NotFound | IntegrityError | OperationalError

text \<open>\<^verbatim>\<open>str(e)\<close>: werkzeug's text for 404, and the head of the driver's message
  for a violated \<^verbatim>\<open>NOT NULL\<close> constraint and for an over-long pattern.\<close>

fun str_exn :: "exn \<Rightarrow> string" where
  "str_exn NotFound = ''404 Not Found: The requested URL was not found on the server. If you entered the URL manually please check your spelling and try again.''"
| "str_exn IntegrityError = ''(sqlite3.IntegrityError) NOT NULL constraint failed''"
| "str_exn OperationalError = ''(sqlite3.OperationalError) LIKE or GLOB pattern too complex''"

subsection \<open>\<^verbatim>\<open>Task.to_dict\<close>\<close>

fun json_of_opt :: "string option \<Rightarrow> json" where
  "json_of_opt None = JNull"
| "json_of_opt (Some s) = JStr s"

definition to_dict :: "task \<Rightarrow> json" where
  "to_dict self = JObj
     [(''id'', JInt (task_id self)),
      (''date'', JStr (date self)),
      (''entityName'', JStr (entity_name self)),
      (''taskType'', JStr (task_type self)),
      (''time'', JStr (time self)),
      (''contactPerson'', JStr (contact_person self)),
      (''notes'', json_of_opt (task_notes self)),
      (''status'', JStr (status self)),
      (''phoneNumber'', json_of_opt (phone_number self)),
      (''createdAt'', JIso (created_at self)),
      (''updatedAt'', JIso (updated_at self))]"

text \<open>Reading a key of a JSON object, for stating properties of responses.\<close>

fun member :: "json \<Rightarrow> string \<Rightarrow> json option" where
  "member (JObj kvs) k = map_of kvs k"
| "member _ k = None"

subsection \<open>The database layer\<close>

text \<open>\<^verbatim>\<open>Task.query.get_or_404(task_id)\<close>.\<close>

definition get_or_404 :: "store \<Rightarrow> nat \<Rightarrow> exn + task" where
  "get_or_404 db i =
     (case find (\<lambda>r. task_id r = i) db of
        None \<Rightarrow> Inl NotFound
      | Some r \<Rightarrow> Inr r)"

text \<open>The key SQLite gives a new row.\<close>

definition next_rowid :: "store \<Rightarrow> nat" where
  "next_rowid db = Suc (fold max (map task_id db) 0)"

fun opt_of_value :: "field_value \<Rightarrow> string option" where
  "opt_of_value Null = None"
| "opt_of_value (Str s) = Some s"

fun value_of_opt :: "string option \<Rightarrow> field_value" where
  "value_of_opt None = Null"
| "value_of_opt (Some s) = Str s"

text \<open>
  \<^verbatim>\<open>db.session.add(new_task); db.session.commit()\<close> for a \<^verbatim>\<open>Task\<close> built from
  the eight keyword arguments. A \<^verbatim>\<open>None\<close> in a \<^verbatim>\<open>NOT NULL\<close> column fails the
  insert, except in \<^verbatim>\<open>status\<close>, whose default \<^verbatim>\<open>'Open'\<close> replaces it. The
  defaults of \<^verbatim>\<open>created_at\<close> and \<^verbatim>\<open>updated_at\<close> are two readings of the
  clock, \<open>t_created\<close> taken first.
\<close>

definition db_insert ::
  "timestamp \<Rightarrow> timestamp \<Rightarrow> store \<Rightarrow>
   field_value \<Rightarrow> field_value \<Rightarrow> field_value \<Rightarrow> field_value \<Rightarrow> field_value \<Rightarrow>
   field_value \<Rightarrow> field_value \<Rightarrow> field_value \<Rightarrow> exn + task \<times> store" where
  "db_insert t_created t_updated db d en tt tm cp nt st ph =
     (case (d, en, tt, tm, cp) of
        (Str d', Str en', Str tt', Str tm', Str cp') \<Rightarrow>
          (let row = \<lparr>task_id = next_rowid db, date = d', entity_name = en',
                      task_type = tt', time = tm', contact_person = cp',
                      task_notes = opt_of_value nt,
                      status = (case st of Null \<Rightarrow> ''Open'' | Str s \<Rightarrow> s),
                      phone_number = opt_of_value ph,
                      created_at = t_created, updated_at = t_updated\<rparr>
           in Inr (row, db @ [row]))
      | _ \<Rightarrow> Inl IntegrityError)"

text \<open>
  \<^verbatim>\<open>db.session.commit()\<close> after the three attributes of a loaded \<^verbatim>\<open>task\<close>
  were assigned the values \<open>st\<close>, \<open>en\<close> and \<open>nt\<close>. Without a net change no
  statement is emitted; otherwise the \<^verbatim>\<open>UPDATE\<close> carries the new reading of
  the clock for \<^verbatim>\<open>updated_at\<close>, and fails on a \<^verbatim>\<open>None\<close> for \<^verbatim>\<open>status\<close> or
  \<^verbatim>\<open>entity_name\<close>.
\<close>

definition db_update ::
  "timestamp \<Rightarrow> store \<Rightarrow> task \<Rightarrow> field_value \<Rightarrow> field_value \<Rightarrow> field_value \<Rightarrow>
   exn + task \<times> store" where
  "db_update now db task st en nt =
     (if st = Str (status task) \<and> en = Str (entity_name task) \<and> nt = value_of_opt (task_notes task)
      then Inr (task, db)
      else case (st, en) of
             (Str st', Str en') \<Rightarrow>
               (let row = task\<lparr>status := st', entity_name := en',
                               task_notes := opt_of_value nt, updated_at := now\<rparr>
                in Inr (row, map (\<lambda>r. if task_id r = task_id task then row else r) db))
           | _ \<Rightarrow> Inl IntegrityError)"

text \<open>\<^verbatim>\<open>db.session.delete(task); db.session.commit()\<close>.\<close>

definition db_delete :: "store \<Rightarrow> task \<Rightarrow> store" where
  "db_delete db task = filter (\<lambda>r. task_id r \<noteq> task_id task) db"

subsection \<open>\<^verbatim>\<open>ILIKE\<close> and \<^verbatim>\<open>ORDER BY\<close>\<close>

definition lower :: "char \<Rightarrow> char" where
  "lower c = (let n = (of_char c :: nat) in if 65 \<le> n \<and> n \<le> 90 then char_of (n + 32) else c)"

fun like :: "string \<Rightarrow> string \<Rightarrow> bool" where
  "like [] s = (s = [])"
| "like (p # ps) [] = (p = CHR ''%'' \<and> like ps [])"
| "like (p # ps) (c # cs) =
     (if p = CHR ''%'' then like ps (c # cs) \<or> like (p # ps) cs
      else (p = CHR ''_'' \<or> p = c) \<and> like ps cs)"

text \<open>A C string: the characters before the first NUL.\<close>

definition c_str :: "string \<Rightarrow> string" where
  "c_str s = takeWhile (\<lambda>c. c \<noteq> CHR 0x00) s"

text \<open>\<^verbatim>\<open>column.ilike(pattern)\<close>, that is \<^verbatim>\<open>lower(column) LIKE lower(pattern)\<close>,
  for a pattern within the length limit; the pattern is the first argument of
  \<open>like\<close>, which sees both strings up to their first NUL.\<close>

definition ilike :: "string \<Rightarrow> string \<Rightarrow> bool" where
  "ilike col pattern = like (c_str (map lower pattern)) (c_str (map lower col))"

text \<open>The length of the UTF-8 encoding, and the longest pattern \<^verbatim>\<open>LIKE\<close>
  accepts (\<^verbatim>\<open>SQLITE_MAX_LIKE_PATTERN_LENGTH\<close>).\<close>

definition utf8_bytes :: "string \<Rightarrow> nat" where
  "utf8_bytes s = sum_list (map (\<lambda>c. if (of_char c :: nat) < 128 then 1 else 2) s)"

definition like_pattern_limit :: nat where
  "like_pattern_limit = 50000"

text \<open>\<^verbatim>\<open>order_by(Task.created_at.desc())\<close> on rows given in key order: newest
  first, rows with equal \<^verbatim>\<open>created_at\<close> in key order (\<open>sort_key\<close> is stable).\<close>

definition order_by_created_at_desc :: "task list \<Rightarrow> task list" where
  "order_by_created_at_desc rows = rev (sort_key created_at (rev rows))"

subsection \<open>The handlers\<close>

text \<open>
  \<^verbatim>\<open>GET /api/tasks\<close>; \<open>search\<close> is \<^verbatim>\<open>request.args.get('search', '')\<close>.
  \<open>tasks_query\<close> is the result of \<^verbatim>\<open>tasks_query.order_by(...).all()\<close>: the
  filter is evaluated row by row, so an over-long pattern raises as soon as
  there is a row to test.
\<close>

definition tasks_query :: "store \<Rightarrow> string \<Rightarrow> exn + task list" where
  "tasks_query db search =
     (if search \<noteq> []
      then if db \<noteq> [] \<and> like_pattern_limit < utf8_bytes (''%'' @ search @ ''%'')
           then Inl OperationalError
           else Inr (order_by_created_at_desc
                  (filter (\<lambda>r. ilike (entity_name r) (''%'' @ search @ ''%'')
                                \<or> ilike (contact_person r) (''%'' @ search @ ''%'')) db))
      else Inr (order_by_created_at_desc db))"

definition get_tasks :: "store \<Rightarrow> string \<Rightarrow> response" where
  "get_tasks db search =
     (case tasks_query db search of
        Inr tasks \<Rightarrow> (JObj [(''success'', JBool True), (''data'', JList (map to_dict tasks))], 200)
      | Inl e \<Rightarrow> (JObj [(''success'', JBool False), (''error'', JStr (str_exn e))], 500))"

text \<open>\<^verbatim>\<open>POST /api/tasks\<close>.\<close>

definition required_fields :: "string list" where
  "required_fields = [''entityName'', ''taskType'', ''time'', ''contactPerson'', ''date'', ''status'']"

text \<open>\<^verbatim>\<open>data.get(field)\<close> and Python's truth value of it.\<close>

definition dict_get :: "request_json \<Rightarrow> string \<Rightarrow> field_value" where
  "dict_get data k = (case data k of None \<Rightarrow> Null | Some v \<Rightarrow> v)"

fun truthy :: "field_value \<Rightarrow> bool" where
  "truthy Null = False"
| "truthy (Str s) = (s \<noteq> [])"

text \<open>The loop over \<^verbatim>\<open>required_fields\<close>: the first field that fails the test.\<close>

fun first_missing :: "string list \<Rightarrow> request_json \<Rightarrow> string option" where
  "first_missing [] data = None"
| "first_missing (field # rest) data =
     (if \<not> truthy (dict_get data field) then Some field else first_missing rest data)"

definition create_task :: "timestamp \<Rightarrow> timestamp \<Rightarrow> store \<Rightarrow> request_json \<Rightarrow> response \<times> store" where
  "create_task t_created t_updated db data =
     (case first_missing required_fields data of
        Some field \<Rightarrow>
          ((JObj [(''success'', JBool False), (''error'', JStr (''Missing field: '' @ field))], 400), db)
      | None \<Rightarrow>
          (case db_insert t_created t_updated db
                  (dict_get data ''date'') (dict_get data ''entityName'')
                  (dict_get data ''taskType'') (dict_get data ''time'')
                  (dict_get data ''contactPerson'') (dict_get data ''notes'')
                  (dict_get data ''status'') (dict_get data ''phoneNumber'') of
             Inr (new_task, db') \<Rightarrow>
               ((JObj [(''success'', JBool True), (''data'', to_dict new_task),
                       (''message'', JStr ''Task created successfully'')], 201), db')
           | Inl e \<Rightarrow>
               ((JObj [(''success'', JBool False), (''error'', JStr (str_exn e))], 500), db)))"

text \<open>\<^verbatim>\<open>GET /api/tasks/<int:task_id>\<close>. The \<^verbatim>\<open>except Exception\<close> clause
  receives the exception of \<^verbatim>\<open>get_or_404\<close>.\<close>

definition get_task :: "store \<Rightarrow> nat \<Rightarrow> response" where
  "get_task db i =
     (case get_or_404 db i of
        Inr task \<Rightarrow> (to_dict task, 200)
      | Inl e \<Rightarrow> (JObj [(''error'', JStr (str_exn e))], 500))"

text \<open>\<^verbatim>\<open>PATCH /api/tasks/<int:task_id>\<close>.\<close>

definition update_task :: "timestamp \<Rightarrow> store \<Rightarrow> nat \<Rightarrow> request_json \<Rightarrow> response \<times> store" where
  "update_task now db i data =
     (case get_or_404 db i of
        Inl e \<Rightarrow> ((JObj [(''success'', JBool False), (''error'', JStr (str_exn e))], 500), db)
      | Inr task \<Rightarrow>
          (let st = (case data ''status'' of Some v \<Rightarrow> v | None \<Rightarrow> Str (status task));
               en = (case data ''entityName'' of Some v \<Rightarrow> v | None \<Rightarrow> Str (entity_name task));
               nt = (case data ''notes'' of Some v \<Rightarrow> v | None \<Rightarrow> value_of_opt (task_notes task))
           in case db_update now db task st en nt of
                Inr (task', db') \<Rightarrow>
                  ((JObj [(''success'', JBool True), (''data'', to_dict task'),
                          (''message'', JStr ''Task updated successfully'')], 200), db')
              | Inl e \<Rightarrow>
                  ((JObj [(''success'', JBool False), (''error'', JStr (str_exn e))], 500), db)))"

text \<open>\<^verbatim>\<open>DELETE /api/tasks/<int:task_id>\<close>.\<close>

definition delete_task :: "store \<Rightarrow> nat \<Rightarrow> response \<times> store" where
  "delete_task db i =
     (case get_or_404 db i of
        Inl e \<Rightarrow> ((JObj [(''error'', JStr (str_exn e))], 500), db)
      | Inr task \<Rightarrow>
          ((JObj [(''success'', JBool True), (''message'', JStr ''Task deleted successfully'')], 200),
           db_delete db task))"

subsection \<open>Start-up rows, request sequences and the words of the specification\<close>

text \<open>The rows that start-up saves into an empty table; the four timestamps are
  the clock readings taken for their defaults.\<close>

definition sample_tasks :: "timestamp \<Rightarrow> timestamp \<Rightarrow> timestamp \<Rightarrow> timestamp \<Rightarrow> store" where
  "sample_tasks c1 u1 c2 u2 =
     [\<lparr>task_id = 1, date = ''2025-06-14'', entity_name = ''ABC Pvt Ltd'',
       task_type = ''Call'', time = ''10:00 AM'', contact_person = ''Ravi Kumar'',
       task_notes = Some ''Follow-up call for demo'', status = ''Open'',
       phone_number = Some ''+91-9876543210'', created_at = c1, updated_at = u1\<rparr>,
      \<lparr>task_id = 2, date = ''2025-06-15'', entity_name = ''XYZ Ltd'',
       task_type = ''Meeting'', time = ''02:00 PM'', contact_person = ''Suresh Sharma'',
       task_notes = Some ''Client presentation'', status = ''Closed'',
       phone_number = None, created_at = c2, updated_at = u2\<rparr>]"

text \<open>A request body with the six required fields and nothing else.\<close>

definition visit_request :: request_json where
  "visit_request = map_of
     [(''entityName'', Str ''Acme''), (''taskType'', Str ''Visit''), (''time'', Str ''09:00 AM''),
      (''contactPerson'', Str ''Asha Rao''), (''date'', Str ''2025-06-16''), (''status'', Str ''Open'')]"

text \<open>The writing requests, each with the clock readings it consumes, and the
  table after a sequence of them.\<close>

datatype request =
    Create timestamp timestamp request_json
  | Update timestamp nat request_json
  | Delete nat

fun handle :: "store \<Rightarrow> request \<Rightarrow> store" where
  "handle db (Create t_created t_updated data) = snd (create_task t_created t_updated db data)"
| "handle db (Update now i data) = snd (update_task now db i data)"
| "handle db (Delete i) = snd (delete_task db i)"

definition run :: "store \<Rightarrow> request list \<Rightarrow> store" where
  "run db reqs = foldl handle db reqs"

text \<open>The clock never runs backwards: every reading of a sequence of requests is
  at least the one before it, starting from \<open>t\<close>.\<close>

fun clock_monotone :: "timestamp \<Rightarrow> request list \<Rightarrow> bool" where
  "clock_monotone t [] = True"
| "clock_monotone t (Create t_created t_updated data # reqs) =
     (t \<le> t_created \<and> t_created \<le> t_updated \<and> clock_monotone t_updated reqs)"
| "clock_monotone t (Update now i data # reqs) = (t \<le> now \<and> clock_monotone now reqs)"
| "clock_monotone t (Delete i # reqs) = clock_monotone t reqs"


text \<open>A required field that the request leaves out or sends empty.\<close>

definition missing_or_empty :: "request_json \<Rightarrow> string \<Rightarrow> bool" where
  "missing_or_empty data field =
     (data field = None \<or> data field = Some Null \<or> data field = Some (Str []))"

text \<open>The request gives one of the three updatable fields a value other than
  the stored one.\<close>

definition net_change :: "task \<Rightarrow> request_json \<Rightarrow> bool" where
  "net_change task data =
     ((case data ''status'' of None \<Rightarrow> False | Some v \<Rightarrow> v \<noteq> Str (status task))
      \<or> (case data ''entityName'' of None \<Rightarrow> False | Some v \<Rightarrow> v \<noteq> Str (entity_name task))
      \<or> (case data ''notes'' of None \<Rightarrow> False | Some v \<Rightarrow> v \<noteq> value_of_opt (task_notes task)))"

text \<open>The values that \<open>update_task\<close> has assigned to \<^verbatim>\<open>status\<close>,
  \<^verbatim>\<open>entity_name\<close> and \<^verbatim>\<open>notes\<close> when it commits.\<close>

definition assigned :: "task \<Rightarrow> request_json \<Rightarrow> field_value \<times> field_value \<times> field_value" where
  "assigned task data =
     ((case data ''status'' of Some v \<Rightarrow> v | None \<Rightarrow> Str (status task)),
      (case data ''entityName'' of Some v \<Rightarrow> v | None \<Rightarrow> Str (entity_name task)),
      (case data ''notes'' of Some v \<Rightarrow> v | None \<Rightarrow> value_of_opt (task_notes task)))"

text \<open>Every row was created no later than it was last updated, and no later
  than the clock reading \<open>t\<close>.\<close>

definition stamps_ok :: "timestamp \<Rightarrow> store \<Rightarrow> bool" where
  "stamps_ok t db = (\<forall>r\<in>set db. created_at r \<le> updated_at r \<and> created_at r \<le> t)"

fun is_update :: "request \<Rightarrow> bool" where
  "is_update (Update now i data) = True"
| "is_update _ = False"

text \<open>A key of the record under \<^verbatim>\<open>data\<close> in a response.\<close>

definition data_field :: "response \<Rightarrow> string \<Rightarrow> json option" where
  "data_field resp k = (case member (fst resp) ''data'' of None \<Rightarrow> None | Some record \<Rightarrow> member record k)"

section \<open>Properties\<close>

subsection \<open>Lookup, keys and validation\<close>

lemma get_or_404_absent: "i \<notin> task_id ` set db \<Longrightarrow> get_or_404 db i = Inl NotFound"
proof -
  assume "i \<notin> task_id ` set db"
  then have "find (\<lambda>r. task_id r = i) db = None" by (auto simp: find_None_iff)
  then show ?thesis by (simp add: get_or_404_def)
qed

lemma get_or_404_found: "get_or_404 db i = Inr r \<Longrightarrow> r \<in> set db \<and> task_id r = i"
  unfolding get_or_404_def
  by (auto split: option.splits simp: find_Some_iff in_set_conv_nth)

lemma fold_max_bounds: "a \<le> fold max xs a \<and> (\<forall>x\<in>set xs. x \<le> fold max xs (a::nat))"
proof (induction xs arbitrary: a)
  case Nil
  show ?case by simp
next
  case (Cons x xs)
  have "max x a \<le> fold max xs (max x a)" using Cons.IH by blast
  moreover have "\<forall>y\<in>set xs. y \<le> fold max xs (max x a)" using Cons.IH by blast
  ultimately show ?case by auto
qed

lemma next_rowid_above: "r \<in> set db \<Longrightarrow> task_id r < next_rowid db"
  using fold_max_bounds[of 0 "map task_id db"] by (auto simp: next_rowid_def less_Suc_eq_le)

lemma next_rowid_positive: "0 < next_rowid db"
  by (simp add: next_rowid_def)

lemma truthy_iff: "truthy v \<longleftrightarrow> (\<exists>s. v = Str s \<and> s \<noteq> [])"
  by (cases v) auto

lemma not_truthy_iff: "\<not> truthy (dict_get data f) \<longleftrightarrow> missing_or_empty data f"
proof (cases "data f")
  case None
  then show ?thesis by (simp add: dict_get_def missing_or_empty_def)
next
  case (Some v)
  then show ?thesis by (cases v) (simp_all add: dict_get_def missing_or_empty_def)
qed

lemma first_missing_None: "first_missing fs data = None \<longleftrightarrow> (\<forall>f\<in>set fs. truthy (dict_get data f))"
  by (induction fs) auto

lemma first_missing_Some: "first_missing fs data = Some f \<Longrightarrow> f \<in> set fs \<and> \<not> truthy (dict_get data f)"
  by (induction fs) (auto split: if_splits)

lemma get_or_404_append_new:
  assumes "\<forall>r\<in>set db. task_id r \<noteq> task_id row"
  shows "get_or_404 (db @ [row]) (task_id row) = Inr row"
proof -
  have "find (\<lambda>r. task_id r = task_id row) db = None" using assms by (auto simp: find_None_iff)
  then have "find (\<lambda>r. task_id r = task_id row) (db @ [row]) = Some row"
    by (induction db) (auto split: if_splits)
  then show ?thesis by (simp add: get_or_404_def)
qed

lemma create_task_cases:
  "(\<exists>f. first_missing required_fields data = Some f \<and>
        create_task tc tu db data =
          ((JObj [(''success'', JBool False), (''error'', JStr (''Missing field: '' @ f))], 400), db))
   \<or> (first_missing required_fields data = None \<and>
       (\<exists>row. create_task tc tu db data =
          ((JObj [(''success'', JBool True), (''data'', to_dict row),
                  (''message'', JStr ''Task created successfully'')], 201), db @ [row])
          \<and> task_id row = next_rowid db \<and> created_at row = tc \<and> updated_at row = tu))"
proof (cases "first_missing required_fields data")
  case (Some f)
  then show ?thesis by (simp add: create_task_def)
next
  case None
  then have all: "\<forall>f\<in>set required_fields. truthy (dict_get data f)"
    by (simp add: first_missing_None)
  have "\<exists>s. dict_get data ''date'' = Str s" "\<exists>s. dict_get data ''entityName'' = Str s"
       "\<exists>s. dict_get data ''taskType'' = Str s" "\<exists>s. dict_get data ''time'' = Str s"
       "\<exists>s. dict_get data ''contactPerson'' = Str s"
    using all by (auto simp: required_fields_def truthy_iff)
  then obtain d en tt tm cp where
    "dict_get data ''date'' = Str d" "dict_get data ''entityName'' = Str en"
    "dict_get data ''taskType'' = Str tt" "dict_get data ''time'' = Str tm"
    "dict_get data ''contactPerson'' = Str cp" by blast
  then show ?thesis using None
    by (simp add: create_task_def db_insert_def Let_def)
qed

subsection \<open>Unknown ids\<close>

text \<open>
  Claim C1. For an id that no row has, Get, Update and Delete should answer
  404. In the code \<^verbatim>\<open>get_or_404\<close> raises inside the handler's \<^verbatim>\<open>try\<close>, the
  \<^verbatim>\<open>except Exception\<close> clause catches it, and all three handlers answer 500.
\<close>

theorem absent_id_answers_500:
  assumes "i \<notin> task_id ` set db"
  shows "snd (get_task db i) = 500
       \<and> snd (fst (update_task now db i data)) = 500
       \<and> snd (fst (delete_task db i)) = 500"
  using get_or_404_absent[OF assms]
  by (simp add: get_task_def update_task_def delete_task_def)

theorem absent_id_answers_500_witness:
  "7 \<notin> task_id ` set (sample_tasks 10 11 12 13)
   \<and> snd (get_task (sample_tasks 10 11 12 13) 7) = 500
   \<and> snd (fst (update_task 20 (sample_tasks 10 11 12 13) 7 Map.empty)) = 500
   \<and> snd (fst (delete_task (sample_tasks 10 11 12 13) 7)) = 500"
  using absent_id_answers_500[of 7 "sample_tasks 10 11 12 13" 20 Map.empty]
  by (simp add: sample_tasks_def)

subsection \<open>Validation\<close>

text \<open>
  Claim C6. A create request in which a required field is missing or empty is
  answered with 400 and the message \<^verbatim>\<open>Missing field: X\<close>, where X is a
  required field that is missing or empty (the first one in the order of the
  check), and the table is unchanged; a request that has all required fields
  and neither \<^verbatim>\<open>notes\<close> nor \<^verbatim>\<open>phoneNumber\<close> is answered with 201.
\<close>

theorem create_validation:
  "(field \<in> set required_fields \<and> missing_or_empty data field \<longrightarrow>
      (\<exists>named\<in>set required_fields. missing_or_empty data named \<and>
         create_task tc tu db data =
           ((JObj [(''success'', JBool False),
                   (''error'', JStr (''Missing field: '' @ named))], 400), db)))
   \<and> ((\<forall>g\<in>set required_fields. \<not> missing_or_empty data g) \<and>
        data ''notes'' = None \<and> data ''phoneNumber'' = None \<longrightarrow>
      snd (fst (create_task tc tu db data)) = 201)"
proof (intro conjI impI)
  assume a: "field \<in> set required_fields \<and> missing_or_empty data field"
  then have "first_missing required_fields data \<noteq> None"
    using not_truthy_iff[of data field] by (auto simp: first_missing_None)
  then obtain named where n: "first_missing required_fields data = Some named" by auto
  then have "create_task tc tu db data =
           ((JObj [(''success'', JBool False),
                   (''error'', JStr (''Missing field: '' @ named))], 400), db)"
    by (simp add: create_task_def)
  moreover have "named \<in> set required_fields" "missing_or_empty data named"
    using first_missing_Some[OF n] not_truthy_iff[of data named] by auto
  ultimately show "\<exists>named\<in>set required_fields. missing_or_empty data named \<and>
         create_task tc tu db data =
           ((JObj [(''success'', JBool False),
                   (''error'', JStr (''Missing field: '' @ named))], 400), db)"
    by blast
next
  assume "(\<forall>g\<in>set required_fields. \<not> missing_or_empty data g) \<and>
        data ''notes'' = None \<and> data ''phoneNumber'' = None"
  then have "first_missing required_fields data = None"
    using not_truthy_iff[of data] by (auto simp: first_missing_None)
  then show "snd (fst (create_task tc tu db data)) = 201"
    using create_task_cases[of data tc tu db] by auto
qed

theorem create_validation_witness:
  "(''contactPerson'' \<in> set required_fields
    \<and> missing_or_empty (visit_request(''contactPerson'' := None)) ''contactPerson''
    \<and> create_task 30 31 (sample_tasks 10 11 12 13) (visit_request(''contactPerson'' := None)) =
           ((JObj [(''success'', JBool False),
                   (''error'', JStr ''Missing field: contactPerson'')], 400), sample_tasks 10 11 12 13))
   \<and> (\<not> missing_or_empty visit_request ''entityName''
      \<and> \<not> missing_or_empty visit_request ''taskType''
      \<and> \<not> missing_or_empty visit_request ''time''
      \<and> \<not> missing_or_empty visit_request ''contactPerson''
      \<and> \<not> missing_or_empty visit_request ''date''
      \<and> \<not> missing_or_empty visit_request ''status''
      \<and> visit_request ''notes'' = None \<and> visit_request ''phoneNumber'' = None
      \<and> snd (fst (create_task 30 31 (sample_tasks 10 11 12 13) visit_request)) = 201)"
proof -
  have h1: "''contactPerson'' \<in> set required_fields
    \<and> missing_or_empty (visit_request(''contactPerson'' := None)) ''contactPerson''"
    by (simp add: required_fields_def missing_or_empty_def)
  have h2: "(\<forall>g\<in>set required_fields. \<not> missing_or_empty visit_request g)
      \<and> visit_request ''notes'' = None \<and> visit_request ''phoneNumber'' = None"
    by (simp add: required_fields_def missing_or_empty_def visit_request_def)
  have e: "create_task 30 31 (sample_tasks 10 11 12 13) (visit_request(''contactPerson'' := None)) =
           ((JObj [(''success'', JBool False),
                   (''error'', JStr ''Missing field: contactPerson'')], 400), sample_tasks 10 11 12 13)"
    by (simp add: create_task_def required_fields_def visit_request_def dict_get_def)
  from create_validation[of "''contactPerson''" "visit_request(''contactPerson'' := None)"
      30 31 "sample_tasks 10 11 12 13"] h1
  have "\<exists>named\<in>set required_fields. missing_or_empty (visit_request(''contactPerson'' := None)) named"
    by blast
  moreover from create_validation[of "''contactPerson''" visit_request 30 31 "sample_tasks 10 11 12 13"] h2
  have "snd (fst (create_task 30 31 (sample_tasks 10 11 12 13) visit_request)) = 201" by blast
  moreover have "\<not> missing_or_empty visit_request ''entityName''
      \<and> \<not> missing_or_empty visit_request ''taskType''
      \<and> \<not> missing_or_empty visit_request ''time''
      \<and> \<not> missing_or_empty visit_request ''contactPerson''
      \<and> \<not> missing_or_empty visit_request ''date''
      \<and> \<not> missing_or_empty visit_request ''status''"
    using h2 by (simp add: required_fields_def)
  ultimately show ?thesis using h1 h2 e by blast
qed

subsection \<open>Create\<close>

text \<open>
  Claim C3, as the code has it. A create request with a non-empty value for
  each required field is answered with 201 and the new record, whose id is
  positive and larger than the id of every row in the table.
\<close>

theorem create_assigns_key_above_all:
  assumes "\<forall>f\<in>set required_fields. \<not> missing_or_empty data f"
  shows "\<exists>row. create_task tc tu db data =
            ((JObj [(''success'', JBool True), (''data'', to_dict row),
                    (''message'', JStr ''Task created successfully'')], 201), db @ [row])
          \<and> 0 < task_id row \<and> (\<forall>r\<in>set db. task_id r < task_id row)"
proof -
  have "first_missing required_fields data = None"
    using assms not_truthy_iff[of data] by (auto simp: first_missing_None)
  then obtain row where
    "create_task tc tu db data =
            ((JObj [(''success'', JBool True), (''data'', to_dict row),
                    (''message'', JStr ''Task created successfully'')], 201), db @ [row])"
    "task_id row = next_rowid db"
    using create_task_cases[of data tc tu db] by auto
  then show ?thesis using next_rowid_above[of _ db] next_rowid_positive[of db] by auto
qed

theorem create_assigns_key_above_all_witness:
  "\<not> missing_or_empty visit_request ''entityName''
   \<and> \<not> missing_or_empty visit_request ''taskType''
   \<and> \<not> missing_or_empty visit_request ''time''
   \<and> \<not> missing_or_empty visit_request ''contactPerson''
   \<and> \<not> missing_or_empty visit_request ''date''
   \<and> \<not> missing_or_empty visit_request ''status''
   \<and> snd (fst (create_task 30 31 (sample_tasks 10 11 12 13) visit_request)) = 201
   \<and> length (snd (create_task 30 31 (sample_tasks 10 11 12 13) visit_request)) = 3"
proof -
  have h: "\<forall>f\<in>set required_fields. \<not> missing_or_empty visit_request f"
    by (simp add: required_fields_def missing_or_empty_def visit_request_def)
  from create_assigns_key_above_all[OF h, of 30 31 "sample_tasks 10 11 12 13"]
  obtain row where "create_task 30 31 (sample_tasks 10 11 12 13) visit_request =
            ((JObj [(''success'', JBool True), (''data'', to_dict row),
                    (''message'', JStr ''Task created successfully'')], 201),
             sample_tasks 10 11 12 13 @ [row])" by blast
  then have "snd (fst (create_task 30 31 (sample_tasks 10 11 12 13) visit_request)) = 201
     \<and> length (snd (create_task 30 31 (sample_tasks 10 11 12 13) visit_request)) = 3"
    by (simp add: sample_tasks_def)
  then show ?thesis using h by (simp add: required_fields_def)
qed

text \<open>
  Claim C3 as stated fails: after the row with the largest id is deleted, the
  next create gets that id again. Here id 2 of the start-up rows is deleted and
  then given to the new task.
\<close>

theorem deleted_key_assigned_again:
  "map task_id (sample_tasks 10 11 12 13) = [1, 2]
   \<and> snd (fst (delete_task (sample_tasks 10 11 12 13) 2)) = 200
   \<and> map task_id (snd (delete_task (sample_tasks 10 11 12 13) 2)) = [1]
   \<and> snd (fst (create_task 30 31 (snd (delete_task (sample_tasks 10 11 12 13) 2)) visit_request)) = 201
   \<and> data_field (fst (create_task 30 31 (snd (delete_task (sample_tasks 10 11 12 13) 2)) visit_request)) ''id''
       = Some (JInt 2)"
  by (simp add: sample_tasks_def delete_task_def get_or_404_def db_delete_def create_task_def
      required_fields_def visit_request_def dict_get_def db_insert_def next_rowid_def
      data_field_def to_dict_def Let_def)

text \<open>
  Claim C8. After a successful create, Get on the returned id answers 200 with
  the very record that create returned.
\<close>

theorem create_then_get:
  assumes "snd (fst (create_task tc tu db data)) = 201"
  shows "\<exists>record i. member (fst (fst (create_task tc tu db data))) ''data'' = Some record
           \<and> member record ''id'' = Some (JInt i)
           \<and> get_task (snd (create_task tc tu db data)) i = (record, 200)"
proof -
  from create_task_cases[of data tc tu db] assms
  obtain row where c: "create_task tc tu db data =
          ((JObj [(''success'', JBool True), (''data'', to_dict row),
                  (''message'', JStr ''Task created successfully'')], 201), db @ [row])"
     and k: "task_id row = next_rowid db" by auto
  have "\<forall>r\<in>set db. task_id r \<noteq> task_id row"
  proof
    fix r assume "r \<in> set db"
    from next_rowid_above[OF this] show "task_id r \<noteq> task_id row" using k by simp
  qed
  then have "get_or_404 (db @ [row]) (task_id row) = Inr row" by (rule get_or_404_append_new)
  then have "get_task (db @ [row]) (task_id row) = (to_dict row, 200)" by (simp add: get_task_def)
  moreover have "member (to_dict row) ''id'' = Some (JInt (task_id row))" by (simp add: to_dict_def)
  ultimately show ?thesis using c by simp
qed

theorem create_then_get_witness:
  "snd (fst (create_task 30 31 (sample_tasks 10 11 12 13) visit_request)) = 201
   \<and> (\<exists>record i. member (fst (fst (create_task 30 31 (sample_tasks 10 11 12 13) visit_request))) ''data'' = Some record
           \<and> member record ''id'' = Some (JInt i)
           \<and> get_task (snd (create_task 30 31 (sample_tasks 10 11 12 13) visit_request)) i = (record, 200))"
proof -
  have h: "snd (fst (create_task 30 31 (sample_tasks 10 11 12 13) visit_request)) = 201"
    by (simp add: create_task_def required_fields_def visit_request_def dict_get_def db_insert_def Let_def)
  show ?thesis using h create_then_get[OF h] by blast
qed

subsection \<open>Update\<close>

lemma find_map_same_key:
  assumes "\<And>r. task_id (f r) = task_id r"
  shows "find (\<lambda>r. task_id r = i) (map f db) = map_option f (find (\<lambda>r. task_id r = i) db)"
  using assms by (induction db) auto

lemma get_or_404_replace:
  assumes "get_or_404 db i = Inr task" and "task_id row = i"
  shows "get_or_404 (map (\<lambda>r. if task_id r = i then row else r) db) i = Inr row"
proof -
  have "find (\<lambda>r. task_id r = i) db = Some task"
    using assms(1) by (simp add: get_or_404_def split: option.splits)
  moreover have "find (\<lambda>r. task_id r = i) (map (\<lambda>r. if task_id r = i then row else r) db)
      = map_option (\<lambda>r. if task_id r = i then row else r) (find (\<lambda>r. task_id r = i) db)"
    by (rule find_map_same_key) (simp add: assms(2))
  moreover have "task_id task = i" using get_or_404_found[OF assms(1)] by simp
  ultimately show ?thesis by (simp add: get_or_404_def)
qed

lemma filter_replace_other:
  assumes "task_id row = i"
  shows "filter (\<lambda>r. task_id r \<noteq> i) (map (\<lambda>r. if task_id r = i then row else r) db)
     = filter (\<lambda>r. task_id r \<noteq> i) db"
  using assms by (induction db) auto

lemma net_change_assigned:
  "net_change task data \<longleftrightarrow>
     assigned task data \<noteq> (Str (status task), Str (entity_name task), value_of_opt (task_notes task))"
  by (auto simp: net_change_def assigned_def split: option.splits)

lemma update_task_unchanged:
  assumes "get_or_404 db i = Inr task" and "\<not> net_change task data"
  shows "update_task now db i data =
           ((JObj [(''success'', JBool True), (''data'', to_dict task),
                   (''message'', JStr ''Task updated successfully'')], 200), db)"
  using assms
  by (auto simp: update_task_def db_update_def Let_def net_change_assigned assigned_def)

lemma update_task_changed:
  assumes "get_or_404 db i = Inr task" and "net_change task data"
    and "assigned task data = (Str st, Str en, nt)"
  shows "update_task now db i data =
           ((JObj [(''success'', JBool True),
                   (''data'', to_dict (task\<lparr>status := st, entity_name := en,
                                 task_notes := opt_of_value nt, updated_at := now\<rparr>)),
                   (''message'', JStr ''Task updated successfully'')], 200),
            map (\<lambda>r. if task_id r = i
                      then task\<lparr>status := st, entity_name := en,
                                 task_notes := opt_of_value nt, updated_at := now\<rparr>
                      else r) db)"
proof -
  have "task_id task = i" using get_or_404_found[OF assms(1)] by simp
  then show ?thesis using assms
    by (auto simp: update_task_def db_update_def Let_def net_change_assigned assigned_def)
qed

lemma update_task_rejected:
  assumes "get_or_404 db i = Inr task"
    and "fst (assigned task data) = Null \<or> fst (snd (assigned task data)) = Null"
  shows "update_task now db i data =
           ((JObj [(''success'', JBool False), (''error'', JStr (str_exn IntegrityError))], 500), db)"
  using assms
  by (auto simp: update_task_def db_update_def Let_def assigned_def split: option.splits field_value.splits)

lemma update_task_outcomes:
  assumes "get_or_404 db i = Inr task"
  obtains
    (unchanged) "\<not> net_change task data"
      "update_task now db i data =
           ((JObj [(''success'', JBool True), (''data'', to_dict task),
                   (''message'', JStr ''Task updated successfully'')], 200), db)"
  | (changed) st en nt where "net_change task data" "assigned task data = (Str st, Str en, nt)"
      "update_task now db i data =
           ((JObj [(''success'', JBool True),
                   (''data'', to_dict (task\<lparr>status := st, entity_name := en,
                                 task_notes := opt_of_value nt, updated_at := now\<rparr>)),
                   (''message'', JStr ''Task updated successfully'')], 200),
            map (\<lambda>r. if task_id r = i
                      then task\<lparr>status := st, entity_name := en,
                                 task_notes := opt_of_value nt, updated_at := now\<rparr>
                      else r) db)"
  | (rejected) "net_change task data"
      "update_task now db i data =
           ((JObj [(''success'', JBool False), (''error'', JStr (str_exn IntegrityError))], 500), db)"
proof (cases "net_change task data")
  case False
  with update_task_unchanged[OF assms] unchanged show ?thesis by blast
next
  case True
  obtain a b nt where abc: "assigned task data = (a, b, nt)" by (cases "assigned task data") auto
  show ?thesis
  proof (cases "a = Null \<or> b = Null")
    case True
    with abc update_task_rejected[OF assms, of data now] rejected \<open>net_change task data\<close>
    show ?thesis by simp
  next
    case False
    then obtain st en where "a = Str st" "b = Str en" by (cases a; cases b) auto
    with abc update_task_changed[OF assms True, of st en nt now] changed True
    show ?thesis by blast
  qed
qed

text \<open>
  Claim C2, as the code has it. A successful update of an existing task
  returns the stored record in full; its \<^verbatim>\<open>updatedAt\<close> is the current time
  when the request changes the stored value of \<^verbatim>\<open>status\<close>, \<^verbatim>\<open>entityName\<close>
  or \<^verbatim>\<open>notes\<close>, and is left as it was when it changes none.
\<close>

theorem update_refreshes_updated_at_on_change:
  assumes "get_or_404 db i = Inr task"
    and "snd (fst (update_task now db i data)) = 200"
  shows "\<exists>task'. member (fst (fst (update_task now db i data))) ''data'' = Some (to_dict task')
           \<and> get_or_404 (snd (update_task now db i data)) i = Inr task'
           \<and> updated_at task' = (if net_change task data then now else updated_at task)"
  using assms(1)
proof (cases rule: update_task_outcomes[of db i task data now])
  case unchanged
  then show ?thesis using assms(1) by simp
next
  case (changed st en nt)
  have "get_or_404 (map (\<lambda>r. if task_id r = i
                      then task\<lparr>status := st, entity_name := en,
                                 task_notes := opt_of_value nt, updated_at := now\<rparr>
                      else r) db) i
        = Inr (task\<lparr>status := st, entity_name := en,
                    task_notes := opt_of_value nt, updated_at := now\<rparr>)"
    using get_or_404_found[OF assms(1)] by (intro get_or_404_replace[OF assms(1)]) simp
  then show ?thesis using changed by simp
next
  case rejected
  then show ?thesis using assms(2) by simp
qed

theorem update_refreshes_updated_at_on_change_witness:
  "get_or_404 (sample_tasks 10 11 12 13) 1 = Inr (hd (sample_tasks 10 11 12 13))
   \<and> snd (fst (update_task 50 (sample_tasks 10 11 12 13) 1 [''status'' \<mapsto> Str ''Closed''])) = 200
   \<and> data_field (fst (update_task 50 (sample_tasks 10 11 12 13) 1 [''status'' \<mapsto> Str ''Closed''])) ''updatedAt''
       = Some (JIso 50)"
proof -
  have h1: "get_or_404 (sample_tasks 10 11 12 13) 1 = Inr (hd (sample_tasks 10 11 12 13))"
    by (simp add: get_or_404_def sample_tasks_def)
  have h2: "snd (fst (update_task 50 (sample_tasks 10 11 12 13) 1 [''status'' \<mapsto> Str ''Closed''])) = 200"
    by (simp add: update_task_def get_or_404_def sample_tasks_def db_update_def Let_def)
  have n: "net_change (hd (sample_tasks 10 11 12 13)) [''status'' \<mapsto> Str ''Closed'']"
    by (simp add: net_change_def sample_tasks_def)
  from update_refreshes_updated_at_on_change[OF h1 h2] n
  obtain task' where
    "member (fst (fst (update_task 50 (sample_tasks 10 11 12 13) 1 [''status'' \<mapsto> Str ''Closed'']))) ''data''
       = Some (to_dict task')" "updated_at task' = 50"
    by auto
  then have "data_field (fst (update_task 50 (sample_tasks 10 11 12 13) 1 [''status'' \<mapsto> Str ''Closed''])) ''updatedAt''
       = Some (JIso 50)"
    by (simp add: data_field_def to_dict_def)
  then show ?thesis using h1 h2 by simp
qed

text \<open>
  Claim C2 as stated fails: at clock reading 50 an update with an empty field
  set, and one that sends the stored status again, both succeed and leave
  \<^verbatim>\<open>updatedAt\<close> at its old value 11.
\<close>

theorem noop_update_keeps_updated_at:
  "snd (fst (update_task 50 (sample_tasks 10 11 12 13) 1 Map.empty)) = 200
   \<and> data_field (fst (update_task 50 (sample_tasks 10 11 12 13) 1 Map.empty)) ''updatedAt'' = Some (JIso 11)
   \<and> map updated_at (snd (update_task 50 (sample_tasks 10 11 12 13) 1 Map.empty)) = [11, 13]
   \<and> snd (fst (update_task 50 (sample_tasks 10 11 12 13) 1 [''status'' \<mapsto> Str ''Open''])) = 200
   \<and> data_field (fst (update_task 50 (sample_tasks 10 11 12 13) 1 [''status'' \<mapsto> Str ''Open''])) ''updatedAt''
       = Some (JIso 11)
   \<and> map updated_at (snd (update_task 50 (sample_tasks 10 11 12 13) 1 [''status'' \<mapsto> Str ''Open''])) = [11, 13]"
  by (simp add: update_task_def get_or_404_def sample_tasks_def db_update_def Let_def
      data_field_def to_dict_def)

text \<open>
  Claim C7. An update of an existing task leaves \<^verbatim>\<open>id\<close>, \<^verbatim>\<open>date\<close>,
  \<^verbatim>\<open>taskType\<close>, \<^verbatim>\<open>time\<close>, \<^verbatim>\<open>contactPerson\<close>, \<^verbatim>\<open>phoneNumber\<close> and
  \<^verbatim>\<open>createdAt\<close> as they were, leaves each of \<^verbatim>\<open>status\<close>, \<^verbatim>\<open>entityName\<close>
  and \<^verbatim>\<open>notes\<close> that the request does not contain as it was, replaces the ones
  it contains by the values sent when it succeeds, and touches no other row.
\<close>

theorem update_frame:
  assumes "get_or_404 db i = Inr task"
  shows "\<exists>task'. get_or_404 (snd (update_task now db i data)) i = Inr task'
     \<and> task_id task' = task_id task \<and> date task' = date task
     \<and> task_type task' = task_type task \<and> time task' = time task
     \<and> contact_person task' = contact_person task
     \<and> phone_number task' = phone_number task \<and> created_at task' = created_at task
     \<and> (data ''status'' = None \<longrightarrow> status task' = status task)
     \<and> (data ''entityName'' = None \<longrightarrow> entity_name task' = entity_name task)
     \<and> (data ''notes'' = None \<longrightarrow> task_notes task' = task_notes task)
     \<and> (snd (fst (update_task now db i data)) = 200 \<longrightarrow>
          (\<forall>v. data ''status'' = Some v \<longrightarrow> v = Str (status task'))
        \<and> (\<forall>v. data ''entityName'' = Some v \<longrightarrow> v = Str (entity_name task'))
        \<and> (\<forall>v. data ''notes'' = Some v \<longrightarrow> v = value_of_opt (task_notes task')))
     \<and> filter (\<lambda>r. task_id r \<noteq> i) (snd (update_task now db i data))
         = filter (\<lambda>r. task_id r \<noteq> i) db"
  using assms
proof (cases rule: update_task_outcomes[of db i task data now])
  case unchanged
  then show ?thesis using assms
    by (auto simp: net_change_def split: option.splits)
next
  case (changed st en nt)
  let ?row = "task\<lparr>status := st, entity_name := en,
                    task_notes := opt_of_value nt, updated_at := now\<rparr>"
  have k: "task_id ?row = i" using get_or_404_found[OF assms] by simp
  have g: "get_or_404 (map (\<lambda>r. if task_id r = i then ?row else r) db) i = Inr ?row"
    by (rule get_or_404_replace[OF assms k])
  have f: "filter (\<lambda>r. task_id r \<noteq> i) (map (\<lambda>r. if task_id r = i then ?row else r) db)
         = filter (\<lambda>r. task_id r \<noteq> i) db"
    by (rule filter_replace_other[OF k])
  have v: "value_of_opt (opt_of_value x) = x" for x by (cases x) auto
  have s1: "data ''status'' = None \<longrightarrow> st = status task"
    and s2: "\<forall>v. data ''status'' = Some v \<longrightarrow> v = Str st"
    and e1: "data ''entityName'' = None \<longrightarrow> en = entity_name task"
    and e2: "\<forall>v. data ''entityName'' = Some v \<longrightarrow> v = Str en"
    and n1: "data ''notes'' = None \<longrightarrow> nt = value_of_opt (task_notes task)"
    and n2: "\<forall>v. data ''notes'' = Some v \<longrightarrow> v = nt"
    using changed(2) by (auto simp: assigned_def split: option.splits)
  have n1': "data ''notes'' = None \<longrightarrow> opt_of_value nt = task_notes task"
    using n1 by (cases "task_notes task") auto
  have snd_eq: "snd (update_task now db i data) = map (\<lambda>r. if task_id r = i then ?row else r) db"
    unfolding changed(3) by simp
  show ?thesis
    unfolding snd_eq
    apply (rule exI[of _ ?row])
    using g f v s1 s2 e1 e2 n1' n2 by simp
next
  case rejected
  then show ?thesis using assms by simp
qed

theorem update_frame_witness:
  "get_or_404 (sample_tasks 10 11 12 13) 1 = Inr (hd (sample_tasks 10 11 12 13))
   \<and> snd (fst (update_task 50 (sample_tasks 10 11 12 13) 1 [''status'' \<mapsto> Str ''Closed''])) = 200
   \<and> map entity_name (filter (\<lambda>r. task_id r \<noteq> 1)
        (snd (update_task 50 (sample_tasks 10 11 12 13) 1 [''status'' \<mapsto> Str ''Closed''])))
      = [''XYZ Ltd'']
   \<and> data_field (fst (update_task 50 (sample_tasks 10 11 12 13) 1 [''status'' \<mapsto> Str ''Closed''])) ''status''
       = Some (JStr ''Closed'')
   \<and> data_field (fst (update_task 50 (sample_tasks 10 11 12 13) 1 [''status'' \<mapsto> Str ''Closed''])) ''entityName''
       = Some (JStr ''ABC Pvt Ltd'')"
proof -
  have h1: "get_or_404 (sample_tasks 10 11 12 13) 1 = Inr (hd (sample_tasks 10 11 12 13))"
    by (simp add: get_or_404_def sample_tasks_def)
  have "filter (\<lambda>r. task_id r \<noteq> 1)
          (snd (update_task 50 (sample_tasks 10 11 12 13) 1 [''status'' \<mapsto> Str ''Closed'']))
        = filter (\<lambda>r. task_id r \<noteq> 1) (sample_tasks 10 11 12 13)"
    using update_frame[OF h1, of 50 "[''status'' \<mapsto> Str ''Closed'']"] by blast
  then have "map entity_name (filter (\<lambda>r. task_id r \<noteq> 1)
        (snd (update_task 50 (sample_tasks 10 11 12 13) 1 [''status'' \<mapsto> Str ''Closed''])))
      = [''XYZ Ltd'']"
    by (simp add: sample_tasks_def)
  moreover have "snd (fst (update_task 50 (sample_tasks 10 11 12 13) 1 [''status'' \<mapsto> Str ''Closed''])) = 200
   \<and> data_field (fst (update_task 50 (sample_tasks 10 11 12 13) 1 [''status'' \<mapsto> Str ''Closed''])) ''status''
       = Some (JStr ''Closed'')
   \<and> data_field (fst (update_task 50 (sample_tasks 10 11 12 13) 1 [''status'' \<mapsto> Str ''Closed''])) ''entityName''
       = Some (JStr ''ABC Pvt Ltd'')"
    by (simp add: update_task_def get_or_404_def sample_tasks_def db_update_def Let_def
      data_field_def to_dict_def)
  ultimately show ?thesis using h1 by simp
qed

subsection \<open>Timestamps\<close>

lemma run_Cons: "run db (q # reqs) = run (handle db q) reqs"
  by (simp add: run_def)

lemma run_Nil: "run db [] = db"
  by (simp add: run_def)

lemma create_task_store:
  "snd (create_task tc tu db data) = db
   \<or> (\<exists>row. snd (create_task tc tu db data) = db @ [row]
         \<and> created_at row = tc \<and> updated_at row = tu)"
  using create_task_cases[of data tc tu db] by auto

lemma update_task_store:
  "snd (update_task now db i data) = db
   \<or> (\<exists>task row. get_or_404 db i = Inr task \<and> task_id row = i
         \<and> created_at row = created_at task \<and> updated_at row = now
         \<and> snd (update_task now db i data) = map (\<lambda>r. if task_id r = i then row else r) db)"
proof (cases "get_or_404 db i")
  case (Inl e)
  then show ?thesis by (simp add: update_task_def)
next
  case (Inr task)
  from Inr show ?thesis
  proof (cases rule: update_task_outcomes[of db i task data now])
    case unchanged
    then show ?thesis by simp
  next
    case (changed st en nt)
    let ?row = "task\<lparr>status := st, entity_name := en,
                    task_notes := opt_of_value nt, updated_at := now\<rparr>"
    have "task_id task = i" using get_or_404_found[OF Inr] by auto
    then have "task_id ?row = i" "created_at ?row = created_at task" "updated_at ?row = now"
      by auto
    moreover note Inr
    moreover have "snd (update_task now db i data) = map (\<lambda>r. if task_id r = i then ?row else r) db"
      unfolding changed(3) by simp
    ultimately show ?thesis by blast
  next
    case rejected
    then show ?thesis by simp
  qed
qed

lemma delete_task_store: "set (snd (delete_task db i)) \<subseteq> set db"
  by (cases "get_or_404 db i") (auto simp: delete_task_def db_delete_def)

lemma stamps_ok_mono: "stamps_ok t db \<Longrightarrow> t \<le> t' \<Longrightarrow> stamps_ok t' db"
  by (fastforce simp: stamps_ok_def)

lemma stamps_ok_create:
  assumes "stamps_ok t db" "t \<le> tc" "tc \<le> tu"
  shows "stamps_ok tu (snd (create_task tc tu db data))"
proof -
  have "stamps_ok tu db" using assms by (intro stamps_ok_mono[OF assms(1)]) simp
  then show ?thesis
    using create_task_store[of tc tu db data] assms(3) by (auto simp: stamps_ok_def)
qed

lemma stamps_ok_update:
  assumes "stamps_ok t db" "t \<le> now"
  shows "stamps_ok now (snd (update_task now db i data))"
proof -
  have m: "stamps_ok now db" by (rule stamps_ok_mono[OF assms])
  from update_task_store[of now db i data] show ?thesis
  proof
    assume "snd (update_task now db i data) = db"
    then show ?thesis using m by simp
  next
    assume "\<exists>task row. get_or_404 db i = Inr task \<and> task_id row = i
         \<and> created_at row = created_at task \<and> updated_at row = now
         \<and> snd (update_task now db i data) = map (\<lambda>r. if task_id r = i then row else r) db"
    then obtain task row where g: "get_or_404 db i = Inr task"
      and h': "created_at row = created_at task" "updated_at row = now"
      "snd (update_task now db i data) = map (\<lambda>r. if task_id r = i then row else r) db"
      by blast
    have h: "task \<in> set db" "created_at row = created_at task"
      "updated_at row = now"
      "snd (update_task now db i data) = map (\<lambda>r. if task_id r = i then row else r) db"
      using get_or_404_found[OF g] h' by auto
    have "created_at task \<le> now" using m h(1) by (auto simp: stamps_ok_def)
    then show ?thesis using m h by (auto simp: stamps_ok_def)
  qed
qed

lemma stamps_ok_delete: "stamps_ok t db \<Longrightarrow> stamps_ok t (snd (delete_task db i))"
  using delete_task_store[of db i] by (auto simp: stamps_ok_def)

lemma stamps_ok_run:
  "clock_monotone t reqs \<Longrightarrow> stamps_ok t db \<Longrightarrow> \<exists>t'. stamps_ok t' (run db reqs)"
proof (induction reqs arbitrary: t db)
  case Nil
  then show ?case by (auto simp: run_Nil)
next
  case (Cons q reqs)
  show ?case
  proof (cases q)
    case (Create tc tu data)
    with Cons.prems have "stamps_ok tu (handle db q)" "clock_monotone tu reqs"
      using stamps_ok_create[of t db tc tu data] by auto
    then show ?thesis using Cons.IH by (simp add: run_Cons)
  next
    case (Update now i data)
    with Cons.prems have "stamps_ok now (handle db q)" "clock_monotone now reqs"
      using stamps_ok_update[of t db now i data] by auto
    then show ?thesis using Cons.IH by (simp add: run_Cons)
  next
    case (Delete i)
    with Cons.prems have "stamps_ok t (handle db q)" "clock_monotone t reqs"
      using stamps_ok_delete[of t db i] by auto
    then show ?thesis using Cons.IH by (simp add: run_Cons)
  qed
qed

lemma update_keeps_created_at:
  assumes "get_or_404 db i = Inr task"
  shows "\<exists>task'. get_or_404 (snd (update_task now db j data)) i = Inr task'
           \<and> created_at task' = created_at task"
proof -
  from update_task_store[of now db j data] show ?thesis
  proof
    assume "snd (update_task now db j data) = db"
    then show ?thesis using assms by simp
  next
    assume "\<exists>t row. get_or_404 db j = Inr t \<and> task_id row = j
         \<and> created_at row = created_at t \<and> updated_at row = now
         \<and> snd (update_task now db j data) = map (\<lambda>r. if task_id r = j then row else r) db"
    then obtain t row where h: "task_id row = j"
      "snd (update_task now db j data) = map (\<lambda>r. if task_id r = j then row else r) db"
      and tj: "get_or_404 db j = Inr t" "created_at row = created_at t"
      by blast
    have f: "find (\<lambda>r. task_id r = i) db = Some task"
      using assms by (simp add: get_or_404_def split: option.splits)
    have "find (\<lambda>r. task_id r = i) (map (\<lambda>r. if task_id r = j then row else r) db)
        = map_option (\<lambda>r. if task_id r = j then row else r) (find (\<lambda>r. task_id r = i) db)"
      by (rule find_map_same_key) (simp add: h(1))
    then have g: "get_or_404 (snd (update_task now db j data)) i
        = Inr (if task_id task = j then row else task)"
      using f h(2) by (simp add: get_or_404_def)
    show ?thesis
    proof (cases "i = j")
      case True
      then have "t = task" "task_id task = j" using tj(1) assms get_or_404_found[OF assms] by auto
      with g tj(2) show ?thesis by simp
    next
      case False
      then have "task_id task \<noteq> j" using get_or_404_found[OF assms] by simp
      with g show ?thesis by simp
    qed
  qed
qed

lemma updates_keep_created_at:
  "\<forall>q\<in>set reqs. is_update q \<Longrightarrow> get_or_404 db i = Inr task \<Longrightarrow>
     \<exists>task'. get_or_404 (run db reqs) i = Inr task' \<and> created_at task' = created_at task"
proof (induction reqs arbitrary: db task)
  case Nil
  then show ?case by (simp add: run_Nil)
next
  case (Cons q reqs)
  from Cons.prems(1) obtain now j data where q: "q = Update now j data"
    by (cases q) auto
  from update_keeps_created_at[OF Cons.prems(2), of now j data]
  obtain task1 where t1: "get_or_404 (handle db q) i = Inr task1" "created_at task1 = created_at task"
    using q by auto
  from Cons.IH[OF _ t1(1)] Cons.prems(1) t1(2) show ?case by (simp add: run_Cons)
qed


text \<open>
  Claim C9, as the code has it. Provided the clock readings never decrease,
  every row of the table has \<^verbatim>\<open>createdAt <= updatedAt\<close> after any sequence of
  create, update and delete requests that starts from a table whose rows have
  it and were created no later than the first reading; and whatever the clock
  does, a task's \<^verbatim>\<open>createdAt\<close> is the same after any sequence of updates.
\<close>

theorem created_at_le_updated_at:
  "(clock_monotone t reqs \<and> stamps_ok t db \<longrightarrow>
      (\<forall>r\<in>set (run db reqs). created_at r \<le> updated_at r))
   \<and> ((\<forall>q\<in>set reqs. is_update q) \<and> get_or_404 db i = Inr task \<longrightarrow>
      (\<exists>task'. get_or_404 (run db reqs) i = Inr task' \<and> created_at task' = created_at task))"
proof (intro conjI impI)
  assume "clock_monotone t reqs \<and> stamps_ok t db"
  then obtain t' where "stamps_ok t' (run db reqs)" using stamps_ok_run by blast
  then show "\<forall>r\<in>set (run db reqs). created_at r \<le> updated_at r"
    by (simp add: stamps_ok_def)
next
  assume "(\<forall>q\<in>set reqs. is_update q) \<and> get_or_404 db i = Inr task"
  then show "\<exists>task'. get_or_404 (run db reqs) i = Inr task' \<and> created_at task' = created_at task"
    using updates_keep_created_at by blast
qed

theorem created_at_le_updated_at_witness:
  "clock_monotone 13 [Create 20 21 visit_request, Update 30 3 [''status'' \<mapsto> Str ''Closed''], Delete 2]
   \<and> list_all (\<lambda>r. created_at r \<le> updated_at r \<and> created_at r \<le> 13) (sample_tasks 10 11 12 13)
   \<and> list_all (\<lambda>r. created_at r \<le> updated_at r)
        (run (sample_tasks 10 11 12 13)
           [Create 20 21 visit_request, Update 30 3 [''status'' \<mapsto> Str ''Closed''], Delete 2])
   \<and> is_update (Update 30 1 [''status'' \<mapsto> Str ''Closed''])
   \<and> get_or_404 (sample_tasks 10 11 12 13) 1 = Inr (hd (sample_tasks 10 11 12 13))
   \<and> (\<exists>task'. get_or_404 (run (sample_tasks 10 11 12 13)
                        [Update 30 1 [''status'' \<mapsto> Str ''Closed'']]) 1 = Inr task'
          \<and> created_at task' = 10)"
proof -
  have c: "clock_monotone 13
      [Create 20 21 visit_request, Update 30 3 [''status'' \<mapsto> Str ''Closed''], Delete 2]"
    by simp
  have s: "stamps_ok 13 (sample_tasks 10 11 12 13)"
    by (simp add: stamps_ok_def sample_tasks_def)
  have s': "list_all (\<lambda>r. created_at r \<le> updated_at r \<and> created_at r \<le> 13) (sample_tasks 10 11 12 13)"
    by (simp add: sample_tasks_def)
  have u: "\<forall>q\<in>set [Update 30 1 [''status'' \<mapsto> Str ''Closed'']]. is_update q" by simp
  have g: "get_or_404 (sample_tasks 10 11 12 13) 1 = Inr (hd (sample_tasks 10 11 12 13))"
    by (simp add: get_or_404_def sample_tasks_def)
  have k: "created_at (hd (sample_tasks 10 11 12 13)) = 10" by (simp add: sample_tasks_def)
  have "list_all (\<lambda>r. created_at r \<le> updated_at r)
        (run (sample_tasks 10 11 12 13)
           [Create 20 21 visit_request, Update 30 3 [''status'' \<mapsto> Str ''Closed''], Delete 2])"
    using created_at_le_updated_at[of 13
        "[Create 20 21 visit_request, Update 30 3 [''status'' \<mapsto> Str ''Closed''], Delete 2]"
        "sample_tasks 10 11 12 13"] c s
    by (simp only: list_all_iff) blast
  moreover have "\<exists>task'. get_or_404 (run (sample_tasks 10 11 12 13)
                        [Update 30 1 [''status'' \<mapsto> Str ''Closed'']]) 1 = Inr task'
          \<and> created_at task' = 10"
    using created_at_le_updated_at[of _ "[Update 30 1 [''status'' \<mapsto> Str ''Closed'']]"
        "sample_tasks 10 11 12 13" 1 "hd (sample_tasks 10 11 12 13)"] u g k
    by auto
  ultimately show ?thesis using c s' g by simp
qed

text \<open>
  Claim C9 as stated fails when the clock is set back: the first start-up row
  was created at reading 10, and an update that reads 5 from the clock leaves
  it with \<^verbatim>\<open>createdAt\<close> 10 and \<^verbatim>\<open>updatedAt\<close> 5.
\<close>

theorem clock_set_back_breaks_order:
  "snd (fst (update_task 5 (sample_tasks 10 11 12 13) 1 [''status'' \<mapsto> Str ''Closed''])) = 200
   \<and> data_field (fst (update_task 5 (sample_tasks 10 11 12 13) 1 [''status'' \<mapsto> Str ''Closed'']))
        ''createdAt'' = Some (JIso 10)
   \<and> data_field (fst (update_task 5 (sample_tasks 10 11 12 13) 1 [''status'' \<mapsto> Str ''Closed'']))
        ''updatedAt'' = Some (JIso 5)
   \<and> map created_at (snd (update_task 5 (sample_tasks 10 11 12 13) 1 [''status'' \<mapsto> Str ''Closed'']))
        = [10, 12]
   \<and> map updated_at (snd (update_task 5 (sample_tasks 10 11 12 13) 1 [''status'' \<mapsto> Str ''Closed'']))
        = [5, 13]"
  by (simp add: update_task_def get_or_404_def sample_tasks_def db_update_def Let_def
      data_field_def to_dict_def)

subsection \<open>Search and ordering\<close>












lemma c_str_nul: "c_str (u @ CHR 0x00 # v) = c_str u"
  by (induction u) (auto simp: c_str_def)








lemma set_order_by: "set (order_by_created_at_desc rows) = set rows"
  by (simp add: order_by_created_at_desc_def)

lemma mset_order_by: "mset (order_by_created_at_desc rows) = mset rows"
  by (simp add: order_by_created_at_desc_def)


lemma descending_order_by:
  "sorted_wrt (\<lambda>x y. created_at y \<le> created_at x) (order_by_created_at_desc rows)"
proof -
  have "sorted (map created_at (sort_key created_at (rev rows)))" by (rule sorted_sort_key)
  then have "sorted_wrt (\<lambda>x y. created_at x \<le> created_at y) (sort_key created_at (rev rows))"
    by (simp add: sorted_wrt_map)
  then show ?thesis
    by (simp add: order_by_created_at_desc_def sorted_wrt_rev)
qed

lemma ties_order_by:
  "filter (\<lambda>r. created_at r = k) (order_by_created_at_desc rows) = filter (\<lambda>r. created_at r = k) rows"
proof -
  have "filter (\<lambda>r. created_at r = k) (sort_key created_at (rev rows))
      = filter (\<lambda>r. created_at r = k) (rev rows)"
    by (rule sort_key_stable)
  then show ?thesis
    by (simp add: order_by_created_at_desc_def rev_filter [symmetric])
qed

lemma descending_before:
  assumes "sorted_wrt (\<lambda>x y. created_at y \<le> created_at x) L"
    and "a \<in> set L" "b \<in> set L" "created_at a < created_at b"
  shows "\<exists>xs ys zs. L = xs @ b # ys @ a # zs"
proof -
  from assms(3) obtain xs rest where L: "L = xs @ b # rest" by (auto dest: split_list)
  have "\<forall>x\<in>set xs. created_at b \<le> created_at x"
    using assms(1) unfolding L by (auto simp: sorted_wrt_append)
  then have "a \<notin> set xs" using assms(4) by auto
  moreover have "a \<noteq> b" using assms(4) by auto
  ultimately have "a \<in> set rest" using assms(2) L by auto
  then obtain ys zs where "rest = ys @ a # zs" by (auto dest: split_list)
  with L show ?thesis by blast
qed






text \<open>
  Claim C5, as the code has it. With no search term the answer is 200 and
  lists every stored task once, in descending order of \<^verbatim>\<open>createdAt\<close>; tasks
  with equal \<^verbatim>\<open>createdAt\<close> keep the order of their keys. So a task \<open>b\<close> is
  listed before a task \<open>a\<close> whenever the \<^verbatim>\<open>createdAt\<close> of \<open>b\<close> is later than
  that of \<open>a\<close>; this holds for a task created after \<open>a\<close> when the clock reading
  taken at its creation is later than the \<^verbatim>\<open>createdAt\<close> of \<open>a\<close>.
\<close>

theorem list_newest_first:
  "tasks_query db [] = Inr (order_by_created_at_desc db)
   \<and> get_tasks db [] =
        (JObj [(''success'', JBool True),
               (''data'', JList (map to_dict (order_by_created_at_desc db)))], 200)
   \<and> mset (order_by_created_at_desc db) = mset db
   \<and> sorted_wrt (\<lambda>x y. created_at y \<le> created_at x) (order_by_created_at_desc db)
   \<and> (\<forall>k. filter (\<lambda>r. created_at r = k) (order_by_created_at_desc db)
          = filter (\<lambda>r. created_at r = k) db)
   \<and> (a \<in> set db \<and> b \<in> set db \<and> created_at a < created_at b
        \<longrightarrow> (\<exists>xs ys zs. order_by_created_at_desc db = xs @ b # ys @ a # zs))
   \<and> (a \<in> set db \<and> created_at a < tc \<and> snd (fst (create_task tc tu db data)) = 201
        \<longrightarrow> (\<exists>b xs ys zs.
               member (fst (fst (create_task tc tu db data))) ''data'' = Some (to_dict b)
             \<and> snd (create_task tc tu db data) = db @ [b]
             \<and> tasks_query (snd (create_task tc tu db data)) [] = Inr (xs @ b # ys @ a # zs)))"
proof (intro conjI impI allI)
  show q: "tasks_query db [] = Inr (order_by_created_at_desc db)" for db
    by (simp add: tasks_query_def)
  show "get_tasks db [] =
        (JObj [(''success'', JBool True),
               (''data'', JList (map to_dict (order_by_created_at_desc db)))], 200)"
    by (simp add: get_tasks_def q)
  show "mset (order_by_created_at_desc db) = mset db" by (rule mset_order_by)
  show s: "sorted_wrt (\<lambda>x y. created_at y \<le> created_at x) (order_by_created_at_desc db)" for db
    by (rule descending_order_by)
  show "filter (\<lambda>r. created_at r = k) (order_by_created_at_desc db)
          = filter (\<lambda>r. created_at r = k) db" for k
    by (rule ties_order_by)
  show "\<exists>xs ys zs. order_by_created_at_desc db = xs @ b # ys @ a # zs"
    if "a \<in> set db \<and> b \<in> set db \<and> created_at a < created_at b"
    using that descending_before[OF s, of a db b] by (simp add: set_order_by)
  show "\<exists>b xs ys zs.
               member (fst (fst (create_task tc tu db data))) ''data'' = Some (to_dict b)
             \<and> snd (create_task tc tu db data) = db @ [b]
             \<and> tasks_query (snd (create_task tc tu db data)) [] = Inr (xs @ b # ys @ a # zs)"
    if h: "a \<in> set db \<and> created_at a < tc \<and> snd (fst (create_task tc tu db data)) = 201"
  proof -
    from h create_task_cases[of data tc tu db] obtain row where
      c: "create_task tc tu db data =
          ((JObj [(''success'', JBool True), (''data'', to_dict row),
                  (''message'', JStr ''Task created successfully'')], 201), db @ [row])"
      and t: "created_at row = tc" by auto
    have "a \<in> set (db @ [row])" "row \<in> set (db @ [row])" "created_at a < created_at row"
      using h t by simp_all
    then obtain xs ys zs where o: "order_by_created_at_desc (db @ [row]) = xs @ row # ys @ a # zs"
      using descending_before[OF s, of a "db @ [row]" row] by (auto simp: set_order_by)
    have "member (fst (fst (create_task tc tu db data))) ''data'' = Some (to_dict row)
        \<and> snd (create_task tc tu db data) = db @ [row]
        \<and> tasks_query (snd (create_task tc tu db data)) [] = Inr (xs @ row # ys @ a # zs)"
      by (simp add: c q o)
    then show ?thesis by blast
  qed
qed

theorem list_newest_first_witness:
  "hd (sample_tasks 10 11 12 13) \<in> set (sample_tasks 10 11 12 13)
   \<and> last (sample_tasks 10 11 12 13) \<in> set (sample_tasks 10 11 12 13)
   \<and> created_at (hd (sample_tasks 10 11 12 13)) < created_at (last (sample_tasks 10 11 12 13))
   \<and> (\<exists>xs ys zs. order_by_created_at_desc (sample_tasks 10 11 12 13)
         = xs @ last (sample_tasks 10 11 12 13) # ys @ hd (sample_tasks 10 11 12 13) # zs)
   \<and> tasks_query (sample_tasks 10 11 12 13) []
        = Inr [last (sample_tasks 10 11 12 13), hd (sample_tasks 10 11 12 13)]
   \<and> created_at (hd (sample_tasks 10 11 12 13)) < 20
   \<and> snd (fst (create_task 20 21 (sample_tasks 10 11 12 13) visit_request)) = 201
   \<and> (\<exists>b xs ys zs.
         member (fst (fst (create_task 20 21 (sample_tasks 10 11 12 13) visit_request))) ''data''
           = Some (to_dict b)
       \<and> snd (create_task 20 21 (sample_tasks 10 11 12 13) visit_request)
           = sample_tasks 10 11 12 13 @ [b]
       \<and> tasks_query (snd (create_task 20 21 (sample_tasks 10 11 12 13) visit_request)) []
           = Inr (xs @ b # ys @ hd (sample_tasks 10 11 12 13) # zs))"
proof -
  have h1: "hd (sample_tasks 10 11 12 13) \<in> set (sample_tasks 10 11 12 13)
      \<and> last (sample_tasks 10 11 12 13) \<in> set (sample_tasks 10 11 12 13)
      \<and> created_at (hd (sample_tasks 10 11 12 13)) < created_at (last (sample_tasks 10 11 12 13))"
    by (simp add: sample_tasks_def)
  have c: "snd (fst (create_task 20 21 (sample_tasks 10 11 12 13) visit_request)) = 201"
    by (simp add: create_task_def visit_request_def required_fields_def dict_get_def
          db_insert_def Let_def)
  have h2: "hd (sample_tasks 10 11 12 13) \<in> set (sample_tasks 10 11 12 13)
      \<and> created_at (hd (sample_tasks 10 11 12 13)) < 20
      \<and> snd (fst (create_task 20 21 (sample_tasks 10 11 12 13) visit_request)) = 201"
    using c by (simp add: sample_tasks_def)
  have o: "order_by_created_at_desc (sample_tasks 10 11 12 13)
      = [last (sample_tasks 10 11 12 13), hd (sample_tasks 10 11 12 13)]"
    by (simp add: sample_tasks_def order_by_created_at_desc_def)
  note t = list_newest_first[of "sample_tasks 10 11 12 13" "hd (sample_tasks 10 11 12 13)"
             "last (sample_tasks 10 11 12 13)" 20 21 visit_request]
  have a: "\<exists>xs ys zs. order_by_created_at_desc (sample_tasks 10 11 12 13)
         = xs @ last (sample_tasks 10 11 12 13) # ys @ hd (sample_tasks 10 11 12 13) # zs"
    using t h1 by blast
  have q: "tasks_query (sample_tasks 10 11 12 13) []
        = Inr [last (sample_tasks 10 11 12 13), hd (sample_tasks 10 11 12 13)]"
    using t o by simp
  have b: "\<exists>b xs ys zs.
         member (fst (fst (create_task 20 21 (sample_tasks 10 11 12 13) visit_request))) ''data''
           = Some (to_dict b)
       \<and> snd (create_task 20 21 (sample_tasks 10 11 12 13) visit_request)
           = sample_tasks 10 11 12 13 @ [b]
       \<and> tasks_query (snd (create_task 20 21 (sample_tasks 10 11 12 13) visit_request)) []
           = Inr (xs @ b # ys @ hd (sample_tasks 10 11 12 13) # zs)"
    using t h2 by blast
  show ?thesis using h1 h2 a q b by blast
qed

text \<open>
  Claim C5 as stated fails when the clock gives the second task a reading that
  is not later than the first task's: on an empty table, two tasks created one
  after the other at the same reading are listed in the order of their
  creation, the older one first; so are two tasks of which the second is
  created with the clock set back.
\<close>

theorem later_task_listed_after:
  "map task_id (run [] [Create 10 10 visit_request]) = [1]
   \<and> map task_id (run [] [Create 10 10 visit_request, Create 10 10 visit_request]) = [1, 2]
   \<and> map_sum id (map task_id)
       (tasks_query (run [] [Create 10 10 visit_request, Create 10 10 visit_request]) [])
       = Inr [1, 2]
   \<and> map task_id (run [] [Create 10 11 visit_request, Create 5 6 visit_request]) = [1, 2]
   \<and> map_sum id (map task_id)
       (tasks_query (run [] [Create 10 11 visit_request, Create 5 6 visit_request]) [])
       = Inr [1, 2]"
  by (simp add: run_def create_task_def visit_request_def required_fields_def dict_get_def
        db_insert_def Let_def next_rowid_def tasks_query_def order_by_created_at_desc_def)

end
